theory Spec2Isabelle
  imports
    Main
    "HOL-Library.AList"
    "HOL-Library.Char_ord"
    "HOL-Library.List_Lexorder"
    "HOL-Library.Product_Lexorder"
    "HOL-Library.Sublist"
begin

section \<open>Python strings and dictionaries\<close>

text \<open>
  A Python \<open>str\<close> is modelled as a \<open>string\<close>: one \<open>char\<close> per code point, for the code
  points below 256. Strings are compared as Python compares them, position by position on
  the code points, a proper prefix being smaller (\<open>List_Lexorder\<close> over \<open>Char_ord\<close>);
  tuples are compared componentwise from the left (\<open>Product_Lexorder\<close>).
\<close>

definition dquote :: char where
  "dquote = CHR 0x22"

definition squote :: char where
  "squote = CHR 0x27"

definition newline :: char where
  "newline = CHR 0x0A"

text \<open>
  \<open>str.isspace\<close> on one character: the code points below 256 that Python counts as
  whitespace are TAB, LF, VT, FF, CR, the separators 0x1C to 0x1F, the space, NEL (0x85)
  and the no-break space (0xA0).
\<close>

definition py_isspace :: "char \<Rightarrow> bool" where
  "py_isspace c = ((of_char c :: nat) \<in> {9, 10, 11, 12, 13, 28, 29, 30, 31, 32, 133, 160})"

text \<open>\<open>s.strip()\<close>: all leading and all trailing whitespace is removed.\<close>

definition py_strip :: "string \<Rightarrow> string" where
  "py_strip s = rev (dropWhile py_isspace (rev (dropWhile py_isspace s)))"

text \<open>
  \<open>s.strip(chars)\<close>: every leading and every trailing character that occurs in \<open>chars\<close>
  is removed, however many there are.
\<close>

definition py_strip_chars :: "string \<Rightarrow> string \<Rightarrow> string" where
  "py_strip_chars chars s =
     rev (dropWhile (\<lambda>c. c \<in> set chars) (rev (dropWhile (\<lambda>c. c \<in> set chars) s)))"

text \<open>\<open>s.startswith(p)\<close>.\<close>

definition startswith :: "string \<Rightarrow> string \<Rightarrow> bool" where
  "startswith s p = prefix p s"

text \<open>
  \<open>key, value = line.split('=', 1)\<close>, which the source only runs under the guard
  \<open>'=' in line\<close>: the text before the first \<open>=\<close> and the text after it. Under the guard
  the split has exactly two parts, so the unpacking cannot raise.
\<close>

definition split_eq :: "string \<Rightarrow> string \<times> string" where
  "split_eq line =
     (takeWhile (\<lambda>c. c \<noteq> CHR ''='') line, tl (dropWhile (\<lambda>c. c \<noteq> CHR ''='') line))"

text \<open>
  Slicing \<open>s[lo:hi]\<close> with optional bounds: a negative bound counts from the end, and
  every bound is clamped into \<open>0 .. len(s)\<close>.
\<close>

definition clamp_index :: "nat \<Rightarrow> int \<Rightarrow> nat" where
  "clamp_index n i = (if i < 0 then nat (max 0 (int n + i)) else min n (nat i))"

definition py_slice :: "int option \<Rightarrow> int option \<Rightarrow> 'a list \<Rightarrow> 'a list" where
  "py_slice lo hi s =
     (let n = length s;
          i = (case lo of None \<Rightarrow> 0 | Some a \<Rightarrow> clamp_index n a);
          j = (case hi of None \<Rightarrow> n | Some b \<Rightarrow> clamp_index n b)
      in take (j - i) (drop i s))"

text \<open>\<open>str(n)\<close> for a natural number, as the f-strings format the counters.\<close>

definition digit_char :: "nat \<Rightarrow> char" where
  "digit_char d = ''0123456789'' ! (d mod 10)"

function str_nat :: "nat \<Rightarrow> string" where
  "str_nat n = (if n < 10 then [digit_char n] else str_nat (n div 10) @ [digit_char (n mod 10)])"
  by pat_completeness auto
termination
  by (relation "measure id") auto

declare str_nat.simps [simp del]

text \<open>
  A \<open>dict\<close> from names to values, in insertion order: an association list whose keys are
  distinct. \<open>d[k] = v\<close> is \<open>AList.update k v d\<close>: an existing key keeps its place and takes
  the new value, a new key goes to the end.
\<close>

type_synonym dict = "(string \<times> string) list"


section \<open>Reading the environment file (both scripts, the same code)\<close>

text \<open>\<open>value.strip('"').strip("'")\<close>.\<close>

definition strip_quotes :: "string \<Rightarrow> string" where
  "strip_quotes v = py_strip_chars [squote] (py_strip_chars [dquote] v)"

text \<open>
  The test that guards \<open>secrets[key] = value\<close>:
  \<open>value and not value.startswith('your') and not value.startswith('sk_test')\<close>.
\<close>

definition not_placeholder :: "string \<Rightarrow> bool" where
  "not_placeholder v = (v \<noteq> [] \<and> \<not> startswith v ''your'' \<and> \<not> startswith v ''sk_test'')"

text \<open>
  The body of the loop \<open>for line in f\<close>, up to the assignment: the key and the value that
  the line stores in \<open>secrets\<close>, or \<open>None\<close> when the line stores nothing.
\<close>

definition parse_line :: "string \<Rightarrow> (string \<times> string) option" where
  "parse_line raw_line =
     (let line = py_strip raw_line in
      if line \<noteq> [] \<and> \<not> startswith line ''#'' \<and> CHR ''='' \<in> set line then
        (case split_eq line of
           (key, v) \<Rightarrow>
             let val = strip_quotes v in
             if not_placeholder val then Some (key, val) else None)
      else None)"

definition parse_step :: "dict \<Rightarrow> string \<Rightarrow> dict" where
  "parse_step d raw_line =
     (case parse_line raw_line of
        None \<Rightarrow> d
      | Some (key, val) \<Rightarrow> AList.update key val d)"

text \<open>The dictionary \<open>secrets\<close> after the loop over the lines of the file.\<close>

definition secrets :: "string list \<Rightarrow> dict" where
  "secrets file_lines = foldl parse_step [] file_lines"


section \<open>The allow-list filter\<close>

definition important_keys_push :: "string list" where
  "important_keys_push = [''JWT_SECRET'']"

definition important_keys_upload :: "string list" where
  "important_keys_upload =
     [''DATABASE_URL'', ''JWT_SECRET'', ''NODE_ENV'',
      ''CLERK_PUBLISHABLE_KEY'', ''CLERK_SECRET_KEY'',
      ''DEFAULT_MODEL'', ''MAX_CONTEXT_MESSAGES'', ''MAX_TOKENS'']"

definition api_prefixes :: "string list" where
  "api_prefixes =
     [''GROQ_API_KEY'', ''DEEPSEEK_API_KEY'', ''OPENROUTER_API_KEY'',
      ''HUGGINGFACE_API_KEY'', ''GEMINI_API_KEY'', ''OCR_SPACE_API_KEY'',
      ''BRAVE_SEARCH_KEY'', ''SERPAPI_KEY'', ''ELEVENLABS_API_KEY'']"

text \<open>
  The inner loop \<open>for prefix in api_prefixes\<close>, which stores the entry at the first prefix
  that matches and breaks.
\<close>

fun prefix_loop :: "string list \<Rightarrow> string \<Rightarrow> string \<Rightarrow> dict \<Rightarrow> dict" where
  "prefix_loop [] key val fs = fs"
| "prefix_loop (p # ps) key val fs =
     (if startswith key p then AList.update key val fs else prefix_loop ps key val fs)"

definition filter_step :: "string list \<Rightarrow> dict \<Rightarrow> string \<times> string \<Rightarrow> dict" where
  "filter_step important_keys fs kv =
     (case kv of
        (key, val) \<Rightarrow>
          if key \<in> set important_keys then AList.update key val fs
          else prefix_loop api_prefixes key val fs)"

text \<open>The dictionary \<open>filtered_secrets\<close> after the loop over \<open>secrets.items()\<close>.\<close>

definition filtered_secrets :: "string list \<Rightarrow> dict \<Rightarrow> dict" where
  "filtered_secrets important_keys d = foldl (filter_step important_keys) [] d"

definition filtered_secrets_push :: "string list \<Rightarrow> dict" where
  "filtered_secrets_push file_lines = filtered_secrets important_keys_push (secrets file_lines)"

definition filtered_secrets_upload :: "string list \<Rightarrow> dict" where
  "filtered_secrets_upload file_lines =
     filtered_secrets important_keys_upload (secrets file_lines)"


section \<open>Masking\<close>

text \<open>
  \<open>push_secrets_to_hf.py\<close>:
  \<open>value[:6] + '...' + value[-4:] if len(value) > 14 else value[:4] + '...'\<close>.
\<close>

definition masked_push :: "string \<Rightarrow> string" where
  "masked_push val =
     (if length val > 14
      then py_slice None (Some 6) val @ ''...'' @ py_slice (Some (- 4)) None val
      else py_slice None (Some 4) val @ ''...'')"

text \<open>
  \<open>upload_secrets.py\<close>:
  \<open>val[:8] + '...' + val[-4:] if len(val) > 16 else val[:4] + '...'\<close>.
\<close>

definition masked_upload :: "string \<Rightarrow> string" where
  "masked_upload val =
     (if length val > 16
      then py_slice None (Some 8) val @ ''...'' @ py_slice (Some (- 4)) None val
      else py_slice None (Some 4) val @ ''...'')"


section \<open>The remote-call script\<close>

text \<open>
  What the script writes to the console, one item per \<open>print\<close>. The lines that carry a
  symbol outside the modelled character range keep their text as fields:
  \<open>Ok_line key masked\<close> is the confirmation of one upload, \<open>Fail_line key msg\<close> the report
  of one failed upload with the truncated message, \<open>Restart_warning\<close> the reminder that
  the Space must be restarted. \<open>Prompt\<close> is the prompt of \<open>input\<close>.
\<close>

datatype out_line =
    Line string
  | Prompt string
  | Ok_line string string
  | Fail_line string string
  | Restart_warning

datatype py_error = FileNotFoundError | EOFError | KeyError

datatype outcome = Exit nat | Uncaught py_error

record api_call =
  call_token :: string
  call_repo_id :: string
  call_key :: string
  call_value :: string

record run_result =
  console :: "out_line list"
  calls :: "api_call list"
  outcome :: outcome

definition repo_id :: string where
  "repo_id = ''sharry121/baatcheet''"

text \<open>
  The token: \<open>os.environ.get('HF_TOKEN')\<close>, and when that is missing or empty the stripped
  answer to the prompt. Standard input is the line that \<open>input\<close> returns, or \<open>None\<close> at
  end of input, where \<open>input\<close> raises.
\<close>

definition token_help :: "out_line list" where
  "token_help =
     [Line (newline # ''You need to provide your HuggingFace token.''),
      Line ''Get it from: https://huggingface.co/settings/tokens'',
      Line ''Make sure it has 'write' permissions.'']"

definition ask_token :: "string option \<Rightarrow> out_line list \<times> (py_error + string)" where
  "ask_token stdin =
     (case stdin of
        None \<Rightarrow>
          (token_help @ [Prompt (newline # ''Enter your HuggingFace token: '')], Inl EOFError)
      | Some answer \<Rightarrow>
          (token_help @ [Prompt (newline # ''Enter your HuggingFace token: '')],
           Inr (py_strip answer)))"

definition get_token :: "string option \<Rightarrow> string option \<Rightarrow> out_line list \<times> (py_error + string)" where
  "get_token hf_env stdin =
     (case hf_env of
        None \<Rightarrow> ask_token stdin
      | Some tok \<Rightarrow> if tok \<noteq> [] then ([], Inr tok) else ask_token stdin)"

text \<open>
  The state of the upload loop: the console so far, the calls made so far, and the two
  counters.
\<close>

record upload_state =
  st_console :: "out_line list"
  st_calls :: "api_call list"
  success_count :: nat
  fail_count :: nat

text \<open>
  The remote operation \<open>api.add_space_secret\<close> is a parameter: for a key and a value it
  answers \<open>Inr ()\<close>, or \<open>Inl msg\<close> when it raises an exception \<open>e\<close> with \<open>str(e) = msg\<close>. The
  loop calls it once per key and the keys are distinct, so any pattern of successes and
  failures is such a function.
\<close>

type_synonym remote = "string \<Rightarrow> string \<Rightarrow> string + unit"

fun upload_loop :: "remote \<Rightarrow> string \<Rightarrow> dict \<Rightarrow> upload_state \<Rightarrow> upload_state" where
  "upload_loop api tok [] st = st"
| "upload_loop api tok ((key, val) # rest) st =
     (let c = \<lparr>call_token = tok, call_repo_id = repo_id, call_key = key, call_value = val\<rparr>
      in case api key val of
           Inr _ \<Rightarrow>
             upload_loop api tok rest
               (st\<lparr>st_console := st_console st @ [Ok_line key (masked_push val)],
                   st_calls := st_calls st @ [c],
                   success_count := success_count st + 1\<rparr>)
         | Inl msg \<Rightarrow>
             upload_loop api tok rest
               (st\<lparr>st_console := st_console st @ [Fail_line key (py_slice None (Some 50) msg)],
                   st_calls := st_calls st @ [c],
                   fail_count := fail_count st + 1\<rparr>))"

definition summary_line :: "nat \<Rightarrow> nat \<Rightarrow> string" where
  "summary_line s f =
     newline # ''Done! Uploaded '' @ str_nat s @ '' secrets, '' @ str_nat f @ '' failed.''"

definition restart_notice :: "nat \<Rightarrow> out_line list" where
  "restart_notice s =
     (if s > 0
      then [Restart_warning,
            Line ''Go to: https://huggingface.co/spaces/sharry121/baatcheet/settings'',
            Line (''Click 'Restart this Space' or 'Factory reboot'' @ [squote])]
      else [])"

text \<open>
  The whole of \<open>push_secrets_to_hf.py\<close>. The inputs are the lines of the environment file
  (\<open>None\<close> when the file cannot be opened), the environment variable \<open>HF_TOKEN\<close>, the
  answer on standard input and the remote operation.
\<close>

definition push_main ::
  "string list option \<Rightarrow> string option \<Rightarrow> string option \<Rightarrow> remote \<Rightarrow> run_result" where
  "push_main env_file hf_env stdin api =
     (case env_file of
        None \<Rightarrow> \<lparr>console = [], calls = [], outcome = Uncaught FileNotFoundError\<rparr>
      | Some file_lines \<Rightarrow>
         (let fs = filtered_secrets_push file_lines;
              out1 = [Line (''Found '' @ str_nat (length fs) @ '' secrets to upload'')]
          in case get_token hf_env stdin of
               (out2, Inl err) \<Rightarrow>
                 \<lparr>console = out1 @ out2, calls = [], outcome = Uncaught err\<rparr>
             | (out2, Inr tok) \<Rightarrow>
                 if tok = [] then
                   \<lparr>console = out1 @ out2 @ [Line ''No token provided. Exiting.''],
                    calls = [], outcome = Exit 1\<rparr>
                 else
                   let out3 = [Line (newline # ''Uploading secrets to '' @ repo_id @ ''...''),
                               Line (replicate 50 CHR ''='')];
                       st = upload_loop api tok (sort fs)
                              \<lparr>st_console = out1 @ out2 @ out3, st_calls = [],
                               success_count = 0, fail_count = 0\<rparr>
                   in \<lparr>console = st_console st
                                  @ [Line (replicate 50 CHR ''=''),
                                     Line (summary_line (success_count st) (fail_count st))]
                                  @ restart_notice (success_count st),
                       calls = st_calls st,
                       outcome = Exit 0\<rparr>))"


section \<open>The manual-instructions script\<close>

text \<open>\<open>filtered_secrets[key]\<close>, which raises on a missing key.\<close>

definition dict_get :: "dict \<Rightarrow> string \<Rightarrow> py_error + string" where
  "dict_get d key = (case map_of d key of None \<Rightarrow> Inl KeyError | Some v \<Rightarrow> Inr v)"

text \<open>The first loop over \<open>sorted(filtered_secrets.keys())\<close>: one masked line per key.\<close>

fun preview_loop :: "dict \<Rightarrow> string list \<Rightarrow> out_line list \<Rightarrow> out_line list \<times> py_error option" where
  "preview_loop fs [] out = (out, None)"
| "preview_loop fs (key # rest) out =
     (case dict_get fs key of
        Inl err \<Rightarrow> (out, Some err)
      | Inr val \<Rightarrow>
          preview_loop fs rest (out @ [Line (''  - '' @ key @ '': '' @ masked_upload val)]))"

text \<open>The second loop: one unmasked \<open>KEY=VALUE\<close> line per key.\<close>

fun plain_loop :: "dict \<Rightarrow> string list \<Rightarrow> out_line list \<Rightarrow> out_line list \<times> py_error option" where
  "plain_loop fs [] out = (out, None)"
| "plain_loop fs (key # rest) out =
     (case dict_get fs key of
        Inl err \<Rightarrow> (out, Some err)
      | Inr val \<Rightarrow> plain_loop fs rest (out @ [Line (key @ ''='' @ val)]))"

text \<open>The whole of \<open>upload_secrets.py\<close>; it makes no remote call.\<close>

definition upload_main :: "string list option \<Rightarrow> run_result" where
  "upload_main env_file =
     (case env_file of
        None \<Rightarrow> \<lparr>console = [], calls = [], outcome = Uncaught FileNotFoundError\<rparr>
      | Some file_lines \<Rightarrow>
         (let fs = filtered_secrets_upload file_lines;
              ks = sort (map fst fs);
              out1 = [Line (''Found '' @ str_nat (length fs) @ '' secrets to upload:'')]
          in case preview_loop fs ks out1 of
               (out2, Some err) \<Rightarrow> \<lparr>console = out2, calls = [], outcome = Uncaught err\<rparr>
             | (out2, None) \<Rightarrow>
                 (let out3 = out2 @
                       [Line (newline # replicate 50 CHR ''=''),
                        Line ''SECRETS TO ADD TO HUGGINGFACE SPACE:'',
                        Line (replicate 50 CHR ''=''),
                        Line (newline # ''Go to: https://huggingface.co/spaces/sharry121/baatcheet/settings''),
                        Line (''Click 'Repository secrets' and add each of these:'' @ [newline])]
                  in (case plain_loop fs ks out3 of
                        (out4, Some err) \<Rightarrow>
                          \<lparr>console = out4, calls = [], outcome = Uncaught err\<rparr>
                      | (out4, None) \<Rightarrow>
                          \<lparr>console = out4, calls = [], outcome = Exit 0\<rparr>))))"


section \<open>Notions used to state the properties\<close>

text \<open>
  The allow-list test as the specification words it: the key is one of the important
  keys, or it starts with one of the API prefixes.
\<close>

definition allow_listed :: "string list \<Rightarrow> string \<Rightarrow> bool" where
  "allow_listed important_keys key =
     (key \<in> set important_keys \<or> (\<exists>p\<in>set api_prefixes. startswith key p))"

text \<open>The call that the upload loop makes for one entry.\<close>

definition mk_call :: "string \<Rightarrow> string \<times> string \<Rightarrow> api_call" where
  "mk_call tok kv =
     \<lparr>call_token = tok, call_repo_id = repo_id, call_key = fst kv, call_value = snd kv\<rparr>"

text \<open>Whether the remote operation succeeds on an entry, and the line reported for it.\<close>

definition succeeds :: "remote \<Rightarrow> string \<times> string \<Rightarrow> bool" where
  "succeeds api kv = (case api (fst kv) (snd kv) of Inr _ \<Rightarrow> True | Inl _ \<Rightarrow> False)"

definition report_line :: "remote \<Rightarrow> string \<times> string \<Rightarrow> out_line" where
  "report_line api kv =
     (case api (fst kv) (snd kv) of
        Inr _ \<Rightarrow> Ok_line (fst kv) (masked_push (snd kv))
      | Inl msg \<Rightarrow> Fail_line (fst kv) (take 50 msg))"

text \<open>A remote operation that fails on one key and succeeds on every other.\<close>

definition flaky :: remote where
  "flaky key val = (if key = ''GROQ_API_KEY_2'' then Inl ''503 Server Error'' else Inr ())"

text \<open>
  The input line of the first end-to-end scenario: the key \<open>GROQ_API_KEY_1\<close>, the sign
  \<open>=\<close>, and the value \<open>sk_live_abc123xyz789\<close> between double quotes.
\<close>

definition scenario_line :: string where
  "scenario_line = ''GROQ_API_KEY_1='' @ dquote # ''sk_live_abc123xyz789'' @ [dquote]"


text \<open>
  Reading a string as a decimal numeral: the value of a digit, the value of a string of
  digits, and the test that a string is a decimal numeral without a superfluous leading
  zero. They say what \<open>str(n)\<close> prints for a counter.
\<close>

definition digit_value :: "char \<Rightarrow> nat" where
  "digit_value c = of_char c - 48"

definition decimal_value :: "string \<Rightarrow> nat" where
  "decimal_value s = foldl (\<lambda>a c. 10 * a + digit_value c) 0 s"

definition is_decimal :: "string \<Rightarrow> bool" where
  "is_decimal s = (s \<noteq> [] \<and> list_all (\<lambda>c. c \<in> set ''0123456789'') s \<and> (hd s = CHR ''0'' \<longrightarrow> s = ''0''))"


section \<open>Auxiliary facts\<close>

lemma update_fresh: "k \<notin> fst ` set d \<Longrightarrow> AList.update k v d = d @ [(k, v)]"
  by (induction d) auto

lemma prefix_loop_eq:
  "prefix_loop ps k v fs = (if \<exists>p\<in>set ps. startswith k p then AList.update k v fs else fs)"
  by (induction ps) auto

lemma filter_step_eq:
  "filter_step ik fs (k, v) = (if allow_listed ik k then AList.update k v fs else fs)"
  by (simp add: filter_step_def prefix_loop_eq allow_listed_def)

lemma foldl_filter_step:
  "distinct (map fst (acc @ d)) \<Longrightarrow>
   foldl (filter_step ik) acc d = acc @ filter (\<lambda>kv. allow_listed ik (fst kv)) d"
proof (induction d arbitrary: acc)
  case Nil
  then show ?case by simp
next
  case (Cons kv d)
  obtain k v where kv: "kv = (k, v)" by (cases kv)
  show ?case
  proof (cases "allow_listed ik k")
    case True
    from Cons.prems kv have fresh: "k \<notin> fst ` set acc" by auto
    from Cons.prems kv have "distinct (map fst ((acc @ [(k, v)]) @ d))" by auto
    from Cons.IH [OF this] True fresh kv show ?thesis
      by (simp add: filter_step_eq update_fresh)
  next
    case False
    from Cons.prems kv have "distinct (map fst (acc @ d))" by auto
    from Cons.IH [OF this] False kv show ?thesis
      by (simp add: filter_step_eq)
  qed
qed

lemma filtered_secrets_eq:
  "distinct (map fst d) \<Longrightarrow>
   filtered_secrets ik d = filter (\<lambda>kv. allow_listed ik (fst kv)) d"
  using foldl_filter_step [of "[]" d ik] by (simp add: filtered_secrets_def)

lemma distinct_parse_step: "distinct (map fst d) \<Longrightarrow> distinct (map fst (parse_step d l))"
  by (auto simp: parse_step_def distinct_update split: option.splits)

lemma distinct_foldl_parse:
  "distinct (map fst d) \<Longrightarrow> distinct (map fst (foldl parse_step d ls))"
  by (induction ls arbitrary: d) (simp_all add: distinct_parse_step)

lemma distinct_secrets: "distinct (map fst (secrets f))"
  by (simp add: secrets_def distinct_foldl_parse)


lemma map_of_parse_step_hit:
  "parse_line l = Some (k, v) \<Longrightarrow> map_of (parse_step d l) k = Some v"
  by (simp add: parse_step_def update_conv')

lemma map_of_parse_step_miss:
  "\<forall>v'. parse_line l \<noteq> Some (k, v') \<Longrightarrow> map_of (parse_step d l) k = map_of d k"
  by (auto simp: parse_step_def update_conv' split: option.splits)

lemma map_of_foldl_parse_miss:
  "\<forall>l\<in>set ls. \<forall>v'. parse_line l \<noteq> Some (k, v') \<Longrightarrow>
   map_of (foldl parse_step d ls) k = map_of d k"
  by (induction ls arbitrary: d) (simp_all add: map_of_parse_step_miss)

lemma slice_take: "py_slice None (Some (int n)) s = take n s"
  by (simp add: py_slice_def clamp_index_def Let_def min_def)

lemma slice_50: "py_slice None (Some 50) s = take 50 s"
  using slice_take [of 50 s] by simp

lemma upload_loop_eq:
  "upload_loop api tok items st =
     \<lparr>st_console = st_console st @ map (report_line api) items,
      st_calls = st_calls st @ map (mk_call tok) items,
      success_count = success_count st + length (filter (succeeds api) items),
      fail_count = fail_count st + length (filter (\<lambda>kv. \<not> succeeds api kv) items)\<rparr>"
proof (induction items arbitrary: st)
  case Nil
  show ?case by simp
next
  case (Cons kv items)
  obtain k v where kv: "kv = (k, v)" by (cases kv)
  show ?case
    by (cases "api k v")
      (simp_all add: kv Cons.IH Let_def report_line_def mk_call_def succeeds_def slice_50)
qed

text \<open>\<open>str(n)\<close> is the decimal numeral of \<open>n\<close>.\<close>

lemma digit_char_value: "d < 10 \<Longrightarrow> digit_value (digit_char d) = d"
proof -
  assume "d < 10"
  then have "d = 0 \<or> d = 1 \<or> d = 2 \<or> d = 3 \<or> d = 4 \<or> d = 5 \<or> d = 6 \<or> d = 7
    \<or> d = 8 \<or> d = 9" by presburger
  then show ?thesis by (elim disjE) (simp_all add: digit_char_def digit_value_def)
qed

lemma digit_char_digit: "digit_char d \<in> set ''0123456789''"
  unfolding digit_char_def by (rule nth_mem) simp

lemma digit_char_zero: "d < 10 \<Longrightarrow> digit_char d = CHR ''0'' \<Longrightarrow> d = 0"
  using digit_char_value [of d] by (simp add: digit_value_def)

lemma str_nat_value: "decimal_value (str_nat n) = n"
proof (induction n rule: str_nat.induct)
  case (1 n)
  show ?case
  proof (cases "n < 10")
    case True
    then show ?thesis by (simp add: str_nat.simps [of n] decimal_value_def digit_char_value)
  next
    case False
    with 1 have "decimal_value (str_nat (n div 10)) = n div 10" by simp
    with False show ?thesis
      by (simp add: str_nat.simps [of n] decimal_value_def digit_char_value)
  qed
qed

lemma str_nat_is_decimal: "is_decimal (str_nat n)"
proof (induction n rule: str_nat.induct)
  case (1 n)
  show ?case
  proof (cases "n < 10")
    case True
    then have "digit_char n = CHR ''0'' \<Longrightarrow> n = 0" by (rule digit_char_zero)
    moreover have "digit_char 0 = CHR ''0''" by (simp add: digit_char_def)
    ultimately show ?thesis
      using True digit_char_digit [of n]
      by (auto simp: str_nat.simps [of n] is_decimal_def)
  next
    case False
    with 1 have ih: "is_decimal (str_nat (n div 10))" by simp
    have "str_nat (n div 10) \<noteq> ''0''"
    proof
      assume "str_nat (n div 10) = ''0''"
      then have "decimal_value (str_nat (n div 10)) = 0"
        by (simp add: decimal_value_def digit_value_def)
      with False show False by (simp add: str_nat_value)
    qed
    with ih False show ?thesis
      using digit_char_digit [of "n mod 10"]
      by (simp add: str_nat.simps [of n] is_decimal_def)
  qed
qed

text \<open>Stripping a set of characters from both ends of a string.\<close>

lemma dw_self: "xs = [] \<or> \<not> P (hd xs) \<Longrightarrow> dropWhile P xs = xs"
  by (cases xs) auto

lemma dw_rev_self: "xs = [] \<or> \<not> P (last xs) \<Longrightarrow> dropWhile P (rev xs) = rev xs"
  by (rule dw_self) (auto simp: hd_rev)

lemma dw_replicate:
  "dropWhile (\<lambda>c. c \<in> set [q]) (replicate m q @ xs) = dropWhile (\<lambda>c. c \<in> set [q]) xs"
  by (induction m) simp_all

lemma dw_replicate_all: "dropWhile (\<lambda>c. c \<in> set [q]) (replicate n q) = []"
  by (induction n) simp_all

lemma strip_chars_id:
  assumes "s = [] \<or> (hd s \<notin> set cs \<and> last s \<notin> set cs)"
  shows "py_strip_chars cs s = s"
proof -
  from assms have 1: "dropWhile (\<lambda>c. c \<in> set cs) s = s"
    by (intro dw_self) auto
  from assms have 2: "dropWhile (\<lambda>c. c \<in> set cs) (rev s) = rev s"
    by (intro dw_rev_self) auto
  show ?thesis by (simp only: py_strip_chars_def 1 2 rev_rev_ident)
qed

lemma strip_chars_replicate:
  assumes "inner = [] \<or> (hd inner \<noteq> q \<and> last inner \<noteq> q)"
  shows "py_strip_chars [q] (replicate m q @ inner @ replicate n q) = inner"
proof (cases "inner = []")
  case True
  have "dropWhile (\<lambda>c. c \<in> set [q]) (replicate m q @ replicate n q) = []"
    by (simp only: dw_replicate dw_replicate_all)
  then have "py_strip_chars [q] (replicate m q @ replicate n q) = []"
    by (simp only: py_strip_chars_def rev.simps dropWhile.simps)
  with True show ?thesis by (simp only: append_Nil)
next
  case False
  with assms have h: "hd inner \<noteq> q" and l: "last inner \<noteq> q" by auto
  from h False have "inner @ replicate n q = [] \<or> \<not> (hd (inner @ replicate n q) \<in> set [q])"
    by simp
  then have "dropWhile (\<lambda>c. c \<in> set [q]) (inner @ replicate n q) = inner @ replicate n q"
    by (rule dw_self)
  then have 1: "dropWhile (\<lambda>c. c \<in> set [q]) (replicate m q @ inner @ replicate n q)
             = inner @ replicate n q"
    by (simp only: dw_replicate)
  from l have "inner = [] \<or> \<not> (last inner \<in> set [q])" by simp
  then have "dropWhile (\<lambda>c. c \<in> set [q]) (rev inner) = rev inner"
    by (rule dw_rev_self)
  then have 2: "dropWhile (\<lambda>c. c \<in> set [q]) (replicate n q @ rev inner) = rev inner"
    by (simp only: dw_replicate)
  show ?thesis
    by (simp only: py_strip_chars_def 1 2 rev_append rev_replicate rev_rev_ident)
qed

lemma wrap_ends:
  assumes "x \<noteq> d" and "inner = [] \<or> (hd inner \<noteq> d \<and> last inner \<noteq> d)"
  shows "replicate m x @ inner @ replicate n x = [] \<or>
         (hd (replicate m x @ inner @ replicate n x) \<notin> set [d] \<and>
          last (replicate m x @ inner @ replicate n x) \<notin> set [d])"
proof (cases "replicate m x @ inner @ replicate n x = []")
  case True
  then show ?thesis by simp
next
  case False
  have h: "hd (replicate m x @ inner @ replicate n x) \<noteq> d"
  proof (cases "m = 0")
    case False
    with assms show ?thesis by (simp add: hd_append)
  next
    case m0: True
    show ?thesis
    proof (cases "inner = []")
      case True
      with m0 False have "n \<noteq> 0" by simp
      with m0 True assms show ?thesis by simp
    next
      case False
      with m0 assms show ?thesis by simp
    qed
  qed
  have l: "last (replicate m x @ inner @ replicate n x) \<noteq> d"
  proof (cases "n = 0")
    case False
    with assms show ?thesis by simp
  next
    case n0: True
    show ?thesis
    proof (cases "inner = []")
      case True
      with n0 False have "m \<noteq> 0" by simp
      with n0 True assms show ?thesis by simp
    next
      case False
      with n0 assms show ?thesis by simp
    qed
  qed
  from h l show ?thesis by simp
qed

lemma wrap_ends_neq:
  assumes "x \<noteq> d" and "inner = [] \<or> (hd inner \<noteq> d \<and> last inner \<noteq> d)"
  shows "replicate m x @ inner @ replicate n x = [] \<or>
         (hd (replicate m x @ inner @ replicate n x) \<noteq> d \<and>
          last (replicate m x @ inner @ replicate n x) \<noteq> d)"
  using wrap_ends [OF assms, of m n] by simp

lemma wrap_ends_Suc:
  assumes "x \<noteq> d"
  shows "hd (replicate (Suc m) x @ ys @ replicate (Suc n) x) \<noteq> d \<and>
         last (replicate (Suc m) x @ ys @ replicate (Suc n) x) \<noteq> d"
proof -
  have "replicate (Suc n) x = replicate n x @ [x]" by (simp add: replicate_append_same)
  then have "last (replicate (Suc m) x @ ys @ replicate (Suc n) x) = x" by simp
  moreover have "hd (replicate (Suc m) x @ ys @ replicate (Suc n) x) = x" by simp
  ultimately show ?thesis using assms by simp
qed

lemma strip_quotes_general:
  assumes u: "u = [] \<or> (hd u \<noteq> squote \<and> last u \<noteq> squote)"
    and w: "w = replicate b squote @ u @ replicate c squote"
    and wd: "w = [] \<or> (hd w \<noteq> dquote \<and> last w \<noteq> dquote)"
  shows "strip_quotes (replicate a dquote @ w @ replicate e dquote) = u"
proof -
  have "py_strip_chars [dquote] (replicate a dquote @ w @ replicate e dquote) = w"
    by (rule strip_chars_replicate [OF wd])
  moreover have "py_strip_chars [squote] w = u"
    unfolding w by (rule strip_chars_replicate [OF u])
  ultimately show ?thesis by (simp only: strip_quotes_def)
qed

lemma strip_quotes_double_outside:
  assumes inner: "inner = [] \<or> (hd inner \<notin> {dquote, squote} \<and> last inner \<notin> {dquote, squote})"
  shows "strip_quotes (replicate a dquote @ replicate b squote @ inner @ replicate c squote
                         @ replicate e dquote) = inner"
proof -
  have ne: "squote \<noteq> dquote" by (simp add: squote_def dquote_def)
  from inner have in_d: "inner = [] \<or> (hd inner \<noteq> dquote \<and> last inner \<noteq> dquote)" by auto
  from inner have in_s: "inner = [] \<or> (hd inner \<noteq> squote \<and> last inner \<noteq> squote)" by auto
  have "strip_quotes (replicate a dquote @ (replicate b squote @ inner @ replicate c squote)
                         @ replicate e dquote) = inner"
    by (rule strip_quotes_general [OF in_s refl wrap_ends_neq [OF ne in_d]])
  then show ?thesis by (simp only: append_assoc)
qed

lemma strip_quotes_single_outside:
  assumes inner: "inner = [] \<or> (hd inner \<notin> {dquote, squote} \<and> last inner \<notin> {dquote, squote})"
  shows "strip_quotes (replicate (Suc a) squote @ replicate b dquote @ inner @ replicate c dquote
                         @ replicate (Suc e) squote)
           = replicate b dquote @ inner @ replicate c dquote"
proof -
  have ne: "squote \<noteq> dquote" by (simp add: squote_def dquote_def)
  have ne': "dquote \<noteq> squote" by (simp add: squote_def dquote_def)
  from inner have in_s: "inner = [] \<or> (hd inner \<noteq> squote \<and> last inner \<noteq> squote)" by auto
  let ?u = "replicate b dquote @ inner @ replicate c dquote"
  let ?w = "replicate (Suc a) squote @ ?u @ replicate (Suc e) squote"
  have wd: "?w = [] \<or> (hd ?w \<noteq> dquote \<and> last ?w \<noteq> dquote)"
    by (rule disjI2) (rule wrap_ends_Suc [OF ne])
  have "strip_quotes (replicate 0 dquote @ ?w @ replicate 0 dquote) = ?u"
    by (rule strip_quotes_general [OF wrap_ends_neq [OF ne' in_s] refl wd])
  then show ?thesis by (simp only: replicate_0 append_Nil append_Nil2 append_assoc)
qed

text \<open>Lines with whitespace next to the sign \<open>=\<close>.\<close>

lemma split_eq_append:
  "CHR ''='' \<notin> set key \<Longrightarrow> split_eq (key @ CHR ''='' # rest) = (key, rest)"
  by (induction key) (auto simp: split_eq_def)

lemma strip_chars_keeps_head:
  "w \<notin> set cs \<Longrightarrow>
   py_strip_chars cs (w # r) = w # rev (dropWhile (\<lambda>c. c \<in> set cs) (rev r))"
  by (simp add: py_strip_chars_def dropWhile_append)

lemma space_not_special:
  "py_isspace c \<Longrightarrow> c \<notin> {dquote, squote, CHR ''y'', CHR ''s'', CHR ''#''}"
  by (auto simp: py_isspace_def dquote_def squote_def)

lemma strip_quotes_keeps_space:
  assumes "py_isspace w"
  shows "\<exists>r'. strip_quotes (w # r) = w # r'"
proof -
  from space_not_special [OF assms] have d: "w \<notin> set [dquote]" and s: "w \<notin> set [squote]"
    by simp_all
  show ?thesis
    by (simp only: strip_quotes_def strip_chars_keeps_head [OF d] strip_chars_keeps_head [OF s])
      blast
qed

lemma spaced_value_stored:
  assumes "rest \<noteq> []" and "py_isspace (hd rest)"
  shows "strip_quotes rest \<noteq> [] \<and> hd (strip_quotes rest) = hd rest
         \<and> not_placeholder (strip_quotes rest)"
proof -
  from assms(1) obtain w r where rest: "rest = w # r" by (cases rest) auto
  with assms(2) have w: "py_isspace w" by simp
  from strip_quotes_keeps_space [OF w] obtain r' where r': "strip_quotes (w # r) = w # r'"
    by blast
  from space_not_special [OF w] have "w \<noteq> CHR ''y''" and "w \<noteq> CHR ''s''" by simp_all
  then show ?thesis
    by (simp add: rest r' not_placeholder_def startswith_def)
qed

lemma spaced_key_not_important:
  assumes "key \<noteq> []" and "py_isspace (last key)"
  shows "key \<notin> set important_keys_upload \<and> key \<notin> set important_keys_push"
  using assms
  by (auto simp: important_keys_upload_def important_keys_push_def py_isspace_def)

lemma api_prefix_not_comment:
  "\<exists>p\<in>set api_prefixes. startswith key p \<Longrightarrow> \<not> startswith key ''#''"
  by (auto simp: api_prefixes_def startswith_def prefix_def)

lemma spaced_parse_line:
  assumes line: "py_strip raw_line = key @ CHR ''='' # rest"
    and eq: "CHR ''='' \<notin> set key"
    and rest: "rest \<noteq> []" "py_isspace (hd rest)"
    and key: "key \<noteq> []"
  shows "parse_line raw_line
           = (if startswith key ''#'' then None else Some (key, strip_quotes rest))"
proof -
  from key obtain k ks where k: "key = k # ks" by (cases key) auto
  have c: "startswith (key @ CHR ''='' # rest) ''#'' = startswith key ''#''"
    by (simp add: startswith_def k)
  from spaced_value_stored [OF rest] have np: "not_placeholder (strip_quotes rest)" by simp
  show ?thesis
    by (simp add: parse_line_def line c split_eq_append [OF eq] np Let_def)
qed

text \<open>Evaluations on the example inputs.\<close>

lemma scenario_parse:
  "parse_line scenario_line = Some (''GROQ_API_KEY_1'', ''sk_live_abc123xyz789'')"
  by code_simp

lemma scenario_filtered:
  "filtered_secrets_push [scenario_line] = [(''GROQ_API_KEY_1'', ''sk_live_abc123xyz789'')]"
  by code_simp

lemma scenario_masked: "masked_push ''sk_live_abc123xyz789'' = ''sk_liv...z789''"
  by code_simp

lemma scenario_masked_upload: "masked_upload ''sk_live_abc123xyz789'' = ''sk_live_...z789''"
  by code_simp

lemma parse_first: "parse_line ''JWT_SECRET=first'' = Some (''JWT_SECRET'', ''first'')"
  by code_simp

lemma parse_second: "parse_line ''JWT_SECRET=second'' = Some (''JWT_SECRET'', ''second'')"
  by code_simp

lemma parse_node_env: "parse_line ''NODE_ENV=production'' = Some (''NODE_ENV'', ''production'')"
  by code_simp

lemma strip_blank: "py_strip ''  '' = []"
  by code_simp

lemma test_key_value:
  "strip_quotes (snd (split_eq (py_strip ''GROQ_API_KEY=sk_test_123''))) = ''sk_test_123''"
  by code_simp

lemma secrets_jwt: "secrets [''JWT_SECRET=abc''] = [(''JWT_SECRET'', ''abc'')]"
  by code_simp

lemma secrets_two:
  "secrets [''GROQ_API_KEY_1=abc'', ''RANDOM_VAR=hello'']
     = [(''GROQ_API_KEY_1'', ''abc''), (''RANDOM_VAR'', ''hello'')]"
  by code_simp


lemma three_items:
  "sort (filtered_secrets_push [''JWT_SECRET=c'', ''GROQ_API_KEY_2=b'', ''GROQ_API_KEY_1=a''])
     = [(''GROQ_API_KEY_1'', ''a''), (''GROQ_API_KEY_2'', ''b''), (''JWT_SECRET'', ''c'')]"
  by code_simp

lemma summary_two_one:
  "summary_line 2 1 = newline # ''Done! Uploaded 2 secrets, 1 failed.''"
  by code_simp

lemma strip_spaced: "py_strip ''GROQ_API_KEY = abc'' = ''GROQ_API_KEY '' @ CHR ''='' # '' abc''"
  by code_simp

lemma strip_spaced_other: "py_strip ''MY_SETTING = abc'' = ''MY_SETTING '' @ CHR ''='' # '' abc''"
  by code_simp

lemma space_is_space: "py_isspace CHR '' ''"
  by code_simp

lemma spaced_value: "strip_quotes '' abc'' = '' abc''"
  by code_simp


section \<open>The claims\<close>




text \<open>
  C2 (amended). In the remote-call script the scenario line is retained by both filters,
  and whenever a token is available and the upload of the entry succeeds, the call is made
  with the unmasked value and the value is displayed masked as \<open>sk_liv...z789\<close>: the first
  six characters, three dots and the last four characters \<open>z789\<close>.
\<close>

theorem scenario_retained_and_masked:
  "get_token hf_env stdin = (out2, Inr tok) \<Longrightarrow> tok \<noteq> [] \<Longrightarrow>
   api ''GROQ_API_KEY_1'' ''sk_live_abc123xyz789'' = Inr () \<Longrightarrow>
   parse_line scenario_line = Some (''GROQ_API_KEY_1'', ''sk_live_abc123xyz789'')
   \<and> filtered_secrets_push [scenario_line] = [(''GROQ_API_KEY_1'', ''sk_live_abc123xyz789'')]
   \<and> calls (push_main (Some [scenario_line]) hf_env stdin api)
        = [\<lparr>call_token = tok, call_repo_id = repo_id, call_key = ''GROQ_API_KEY_1'',
            call_value = ''sk_live_abc123xyz789''\<rparr>]
   \<and> Ok_line ''GROQ_API_KEY_1'' ''sk_liv...z789''
        \<in> set (console (push_main (Some [scenario_line]) hf_env stdin api))"
  by (simp add: scenario_parse scenario_filtered scenario_masked push_main_def Let_def)

theorem scenario_retained_and_masked_witness:
  "Ok_line ''GROQ_API_KEY_1'' ''sk_liv...z789''
     \<in> set (console (push_main (Some [scenario_line]) (Some ''hf_tok'') None
                       (\<lambda>key val. Inr ())))"
  using scenario_retained_and_masked
    [of "Some ''hf_tok''" None "[]" "''hf_tok''" "\<lambda>key val. Inr ()"]
  by (simp add: get_token_def)

text \<open>
  The claim as stated fails: the masked form of the scenario value is not
  \<open>sk_liv...9789\<close>, and no such line is printed on a successful run.
\<close>

theorem scenario_mask_not_9789:
  "masked_push ''sk_live_abc123xyz789'' \<noteq> ''sk_liv...9789''
   \<and> Ok_line ''GROQ_API_KEY_1'' ''sk_liv...9789''
        \<notin> set (console (push_main (Some [scenario_line]) (Some ''hf_tok'') None
                          (\<lambda>key val. Inr ())))"
  by (simp add: scenario_filtered scenario_masked push_main_def Let_def get_token_def
        restart_notice_def)

text \<open>
  C3 (amended). The value of a line is passed through \<open>strip('"')\<close> and then, what is left,
  through \<open>strip("'")\<close>, each of which removes every leading and trailing occurrence of its
  character. So: a value made of a run of double quotes, a text \<open>w\<close> that neither begins
  nor ends with a double quote, and a run of double quotes, where \<open>w\<close> is itself a run of
  single quotes, a text \<open>u\<close> that neither begins nor ends with a single quote, and a run of
  single quotes, becomes \<open>u\<close>. In particular, for a text that neither begins nor ends
  with a quote character: wrapped in double quotes outside single quotes, any number of
  each at each end, all of them are removed; wrapped in single quotes outside double
  quotes, only the single quotes are removed and the double quotes stay; wrapped in any
  number of copies of one quote character at each end, matched or not, all the copies are
  removed, so that a value in one matching pair loses exactly that pair; and a value
  with no quote character at either end is unchanged.
\<close>

theorem strip_quotes_removes_runs:
  "(u = [] \<or> (hd u \<noteq> squote \<and> last u \<noteq> squote) \<longrightarrow>
    w = replicate b squote @ u @ replicate c squote \<longrightarrow>
    w = [] \<or> (hd w \<noteq> dquote \<and> last w \<noteq> dquote) \<longrightarrow>
    strip_quotes (replicate a dquote @ w @ replicate e dquote) = u)
   \<and> (inner = [] \<or> (hd inner \<notin> {dquote, squote} \<and> last inner \<notin> {dquote, squote}) \<longrightarrow>
       strip_quotes (replicate a dquote @ replicate b squote @ inner @ replicate c squote
                       @ replicate e dquote) = inner
       \<and> strip_quotes (replicate (Suc a) squote @ replicate b dquote @ inner
                         @ replicate c dquote @ replicate (Suc e) squote)
           = replicate b dquote @ inner @ replicate c dquote
       \<and> (q \<in> {dquote, squote} \<longrightarrow>
            strip_quotes (replicate m q @ inner @ replicate n q) = inner
            \<and> strip_quotes (q # inner @ [q]) = inner)
       \<and> strip_quotes inner = inner)"
proof (intro conjI impI)
  assume "u = [] \<or> (hd u \<noteq> squote \<and> last u \<noteq> squote)"
    and "w = replicate b squote @ u @ replicate c squote"
    and "w = [] \<or> (hd w \<noteq> dquote \<and> last w \<noteq> dquote)"
  then show "strip_quotes (replicate a dquote @ w @ replicate e dquote) = u"
    by (rule strip_quotes_general)
next
  assume inner: "inner = [] \<or> (hd inner \<notin> {dquote, squote} \<and> last inner \<notin> {dquote, squote})"
  show "strip_quotes (replicate a dquote @ replicate b squote @ inner @ replicate c squote
                       @ replicate e dquote) = inner"
    by (rule strip_quotes_double_outside [OF inner])
  show "strip_quotes (replicate (Suc a) squote @ replicate b dquote @ inner
                         @ replicate c dquote @ replicate (Suc e) squote)
           = replicate b dquote @ inner @ replicate c dquote"
    by (rule strip_quotes_single_outside [OF inner])
  from strip_quotes_double_outside [OF inner, of 0 0 0 0]
  show "strip_quotes inner = inner"
    by (simp only: replicate_0 append_Nil append_Nil2)
next
  assume inner: "inner = [] \<or> (hd inner \<notin> {dquote, squote} \<and> last inner \<notin> {dquote, squote})"
    and q: "q \<in> {dquote, squote}"
  have gen: "strip_quotes (replicate i q @ inner @ replicate j q) = inner" for i j
  proof (cases "q = dquote")
    case True
    from strip_quotes_double_outside [OF inner, of i 0 0 j] show ?thesis
      by (simp only: True replicate_0 append_Nil append_Nil2)
  next
    case False
    with q have sq: "q = squote" by simp
    from strip_quotes_double_outside [OF inner, of 0 i j 0] show ?thesis
      by (simp only: sq replicate_0 append_Nil append_Nil2)
  qed
  show "strip_quotes (replicate m q @ inner @ replicate n q) = inner" by (rule gen)
  have one: "replicate (Suc 0) q = [q]" by simp
  from gen [of "Suc 0" "Suc 0"] show "strip_quotes (q # inner @ [q]) = inner"
    by (simp only: one append_Cons append_Nil)
qed

theorem strip_quotes_removes_runs_witness:
  "strip_quotes (dquote # ''sk_live_abc'' @ [dquote]) = ''sk_live_abc''
   \<and> strip_quotes (squote # ''sk_live_abc'' @ [squote]) = ''sk_live_abc''
   \<and> strip_quotes ([dquote, squote] @ ''abc'' @ [squote, dquote]) = ''abc''
   \<and> strip_quotes ([squote, squote, dquote] @ ''abc'' @ [dquote, squote, squote])
       = dquote # ''abc'' @ [dquote]
   \<and> strip_quotes ([squote, dquote] @ ''abc'' @ [dquote]) = dquote # ''abc''"
  using
    strip_quotes_removes_runs [where inner = "''sk_live_abc''" and q = dquote and m = 1 and n = 1
        and u = "[]" and w = "[]" and a = 0 and b = 0 and c = 0 and e = 0]
    strip_quotes_removes_runs [where inner = "''sk_live_abc''" and q = squote and m = 1 and n = 1
        and u = "[]" and w = "[]" and a = 0 and b = 0 and c = 0 and e = 0]
    strip_quotes_removes_runs [where inner = "''abc''" and q = dquote and m = 0 and n = 0
        and u = "''abc''" and w = "[squote] @ ''abc'' @ [squote]"
        and a = 1 and b = 1 and c = 1 and e = 1]
    strip_quotes_removes_runs [where inner = "''abc''" and q = dquote and m = 0 and n = 0
        and u = "dquote # ''abc''" and w = "squote # dquote # ''abc''"
        and a = 0 and b = 1 and c = 0 and e = 1]
  by (simp add: dquote_def squote_def)

text \<open>
  The claim as stated fails: an unmatched leading quote is removed, a doubly quoted value
  loses both layers, and single quotes nested inside double quotes are removed as well.
\<close>

theorem strip_quotes_not_one_layer:
  "strip_quotes (dquote # ''abc'') \<noteq> dquote # ''abc''
   \<and> strip_quotes ([dquote, dquote] @ ''abc'' @ [dquote, dquote]) \<noteq> dquote # ''abc'' @ [dquote]
   \<and> strip_quotes ([dquote, squote] @ ''abc'' @ [squote, dquote]) \<noteq> squote # ''abc'' @ [squote]"
  by code_simp

text \<open>
  C4. In the remote-call script the masked form of a value \<open>v\<close> is
  \<open>v[0:6] + "..." + v[-4:]\<close> when \<open>len(v) > 14\<close> and \<open>v[0:4] + "..."\<close> otherwise; in the
  manual-instructions script it is \<open>v[0:8] + "..." + v[-4:]\<close> when \<open>len(v) > 16\<close> and
  \<open>v[0:4] + "..."\<close> otherwise. The last two conjuncts say the same with the first and the
  last characters written out.
\<close>

theorem masked_forms:
  "masked_push v =
     (if length v > 14
      then py_slice (Some 0) (Some 6) v @ ''...'' @ py_slice (Some (- 4)) None v
      else py_slice (Some 0) (Some 4) v @ ''...'')
   \<and> masked_upload v =
     (if length v > 16
      then py_slice (Some 0) (Some 8) v @ ''...'' @ py_slice (Some (- 4)) None v
      else py_slice (Some 0) (Some 4) v @ ''...'')
   \<and> masked_push v =
     (if length v > 14 then take 6 v @ ''...'' @ drop (length v - 4) v else take 4 v @ ''...'')
   \<and> masked_upload v =
     (if length v > 16 then take 8 v @ ''...'' @ drop (length v - 4) v else take 4 v @ ''...'')"
  by (simp add: masked_push_def masked_upload_def py_slice_def clamp_index_def Let_def
        nat_diff_distrib' min_def)

theorem masked_forms_witness:
  "masked_push ''sk_live_abc123xyz789'' = ''sk_liv...z789''
   \<and> masked_upload ''sk_live_abc123xyz789'' = ''sk_live_...z789''
   \<and> masked_push ''short'' = ''shor...''"
  using masked_forms [of "''sk_live_abc123xyz789''"] masked_forms [of "''short''"]
  by (simp add: py_slice_def clamp_index_def)

text \<open>
  C5. An entry of \<open>secrets\<close>, that is an entry that survived the placeholder filter, is
  retained by the allow-list filter if and only if its key is one of the important keys of
  the script or starts with one of the API prefixes; this holds in both scripts, each with
  its own important keys.
\<close>

theorem allow_list_filter_iff:
  "((k, v) \<in> set (filtered_secrets_push f) \<longleftrightarrow>
      (k, v) \<in> set (secrets f) \<and>
      (k \<in> set important_keys_push \<or> (\<exists>p\<in>set api_prefixes. startswith k p)))
   \<and> ((k, v) \<in> set (filtered_secrets_upload f) \<longleftrightarrow>
      (k, v) \<in> set (secrets f) \<and>
      (k \<in> set important_keys_upload \<or> (\<exists>p\<in>set api_prefixes. startswith k p)))"
  by (auto simp: filtered_secrets_push_def filtered_secrets_upload_def
        filtered_secrets_eq [OF distinct_secrets] allow_listed_def)

theorem allow_list_filter_iff_witness:
  "(''GROQ_API_KEY_1'', ''abc'')
      \<in> set (filtered_secrets_push [''GROQ_API_KEY_1=abc'', ''RANDOM_VAR=hello''])
   \<and> (''RANDOM_VAR'', ''hello'')
      \<notin> set (filtered_secrets_push [''GROQ_API_KEY_1=abc'', ''RANDOM_VAR=hello''])"
  using allow_list_filter_iff
      [of "''GROQ_API_KEY_1''" "''abc''" "[''GROQ_API_KEY_1=abc'', ''RANDOM_VAR=hello'']"]
    allow_list_filter_iff
      [of "''RANDOM_VAR''" "''hello''" "[''GROQ_API_KEY_1=abc'', ''RANDOM_VAR=hello'']"]
  by (simp add: secrets_two api_prefixes_def important_keys_push_def startswith_def)

text \<open>
  C6. A line whose quote-stripped value is empty, or starts with \<open>your\<close>, or starts with
  \<open>sk_test\<close>, stores nothing, whatever its key: the loop body leaves \<open>secrets\<close> as it
  was, so the file with the line and the file without it give the same mapping. In
  particular \<open>JWT_SECRET=your-secret-here\<close> is excluded by both scripts although
  \<open>JWT_SECRET\<close> is an important key of both.
\<close>

theorem placeholder_excluded:
  "(val = strip_quotes (snd (split_eq (py_strip raw_line))) \<longrightarrow>
      (val = [] \<or> startswith val ''your'' \<or> startswith val ''sk_test'') \<longrightarrow>
      parse_line raw_line = None \<and> parse_step d raw_line = d
      \<and> secrets (pre @ raw_line # post) = secrets (pre @ post))
   \<and> ''JWT_SECRET'' \<in> set important_keys_push
   \<and> ''JWT_SECRET'' \<in> set important_keys_upload
   \<and> parse_line ''JWT_SECRET=your-secret-here'' = None
   \<and> filtered_secrets_push [''JWT_SECRET=your-secret-here''] = []
   \<and> filtered_secrets_upload [''JWT_SECRET=your-secret-here''] = []"
proof (intro conjI impI)
  assume v: "val = strip_quotes (snd (split_eq (py_strip raw_line)))"
    and ph: "val = [] \<or> startswith val ''your'' \<or> startswith val ''sk_test''"
  from v ph show none: "parse_line raw_line = None"
    by (auto simp: parse_line_def not_placeholder_def Let_def split: prod.splits)
  then show same: "parse_step d raw_line = d" for d
    by (simp add: parse_step_def)
  show "secrets (pre @ raw_line # post) = secrets (pre @ post)"
    by (simp add: secrets_def same)
next
  show "''JWT_SECRET'' \<in> set important_keys_push" by (simp add: important_keys_push_def)
  show "''JWT_SECRET'' \<in> set important_keys_upload" by (simp add: important_keys_upload_def)
  show "parse_line ''JWT_SECRET=your-secret-here'' = None" by code_simp
  show "filtered_secrets_push [''JWT_SECRET=your-secret-here''] = []" by code_simp
  show "filtered_secrets_upload [''JWT_SECRET=your-secret-here''] = []" by code_simp
qed

theorem placeholder_excluded_witness:
  "parse_line ''GROQ_API_KEY=sk_test_123'' = None
   \<and> secrets [''JWT_SECRET=abc'', ''GROQ_API_KEY=sk_test_123''] = [(''JWT_SECRET'', ''abc'')]"
  using placeholder_excluded
    [of "''sk_test_123''" "''GROQ_API_KEY=sk_test_123''" "[]" "[''JWT_SECRET=abc'']" "[]"]
  by (simp add: test_key_value secrets_jwt startswith_def)

text \<open>
  C7. In the remote-call script, when the environment file can be read, \<open>HF_TOKEN\<close> is
  absent and the answer to the prompt is empty after stripping, the process exits with
  status 1 after printing \<open>No token provided. Exiting.\<close> and makes no remote call.
\<close>

theorem no_token_exits_1:
  "hf_env = None \<Longrightarrow> stdin = Some answer \<Longrightarrow> py_strip answer = [] \<Longrightarrow>
   outcome (push_main (Some file_lines) hf_env stdin api) = Exit 1
   \<and> calls (push_main (Some file_lines) hf_env stdin api) = []
   \<and> last (console (push_main (Some file_lines) hf_env stdin api))
       = Line ''No token provided. Exiting.''"
  by (simp add: push_main_def get_token_def ask_token_def Let_def)

theorem no_token_exits_1_witness:
  "outcome (push_main (Some [''JWT_SECRET=abc'']) None (Some ''  '') (\<lambda>k v. Inr ())) = Exit 1
   \<and> calls (push_main (Some [''JWT_SECRET=abc'']) None (Some ''  '') (\<lambda>k v. Inr ())) = []"
  using no_token_exits_1 [of None "Some ''  ''" "''  ''" "[''JWT_SECRET=abc'']" "\<lambda>k v. Inr ()"]
  by (simp add: strip_blank)

text \<open>
  C8. In the remote-call script, once a token is available, the loop calls the remote
  operation for every retained entry in key order, whether earlier calls failed or not;
  each entry is reported by one line, a failure by the first 50 characters of its error
  message. Every entry is counted once, as a success or as a failure, and the summary
  line is \<open>Done! Uploaded S secrets, F failed.\<close> after a line feed, where \<open>S\<close> and \<open>F\<close> are
  the decimal numerals of the number of successes and of the number of failures; the
  restart notice follows when at least one upload succeeded, and the run ends with
  status 0. With two successes and one failure the summary reads
  \<open>Done! Uploaded 2 secrets, 1 failed.\<close>
\<close>

theorem failures_counted_batch_continues:
  "get_token hf_env stdin = (out2, Inr tok) \<Longrightarrow> tok \<noteq> [] \<Longrightarrow>
   items = sort (filtered_secrets_push file_lines) \<Longrightarrow>
   r = push_main (Some file_lines) hf_env stdin api \<Longrightarrow>
   n_ok = length (filter (succeeds api) items) \<Longrightarrow>
   n_failed = length (filter (\<lambda>kv. \<not> succeeds api kv) items) \<Longrightarrow>
   calls r = map (mk_call tok) items
   \<and> (\<exists>before. console r =
         before @ map (report_line api) items
           @ [Line (replicate 50 CHR ''=''),
              Line (newline # ''Done! Uploaded '' @ str_nat n_ok @ '' secrets, ''
                      @ str_nat n_failed @ '' failed.'')]
           @ (if n_ok > 0
               then [Restart_warning,
                     Line ''Go to: https://huggingface.co/spaces/sharry121/baatcheet/settings'',
                     Line (''Click 'Restart this Space' or 'Factory reboot'' @ [squote])]
               else []))
   \<and> is_decimal (str_nat n_ok) \<and> decimal_value (str_nat n_ok) = n_ok
   \<and> is_decimal (str_nat n_failed) \<and> decimal_value (str_nat n_failed) = n_failed
   \<and> n_ok + n_failed = length items
   \<and> outcome r = Exit 0
   \<and> (api k v = Inl msg \<longrightarrow> report_line api (k, v) = Fail_line k (take 50 msg))
   \<and> summary_line 2 1 = newline # ''Done! Uploaded 2 secrets, 1 failed.''"
proof (intro conjI impI)
  assume tk: "get_token hf_env stdin = (out2, Inr tok)" and ne: "tok \<noteq> []"
    and it: "items = sort (filtered_secrets_push file_lines)"
    and r: "r = push_main (Some file_lines) hf_env stdin api"
    and ok: "n_ok = length (filter (succeeds api) items)"
    and bad: "n_failed = length (filter (\<lambda>kv. \<not> succeeds api kv) items)"
  show "calls r = map (mk_call tok) items"
    by (simp add: r push_main_def tk ne Let_def upload_loop_eq it)
  show "\<exists>before. console r =
         before @ map (report_line api) items
           @ [Line (replicate 50 CHR ''=''),
              Line (newline # ''Done! Uploaded '' @ str_nat n_ok @ '' secrets, ''
                      @ str_nat n_failed @ '' failed.'')]
           @ (if n_ok > 0
               then [Restart_warning,
                     Line ''Go to: https://huggingface.co/spaces/sharry121/baatcheet/settings'',
                     Line (''Click 'Restart this Space' or 'Factory reboot'' @ [squote])]
               else [])"
    by (simp add: r push_main_def tk ne Let_def upload_loop_eq it ok bad summary_line_def
          restart_notice_def)
  show "is_decimal (str_nat n_ok)" by (rule str_nat_is_decimal)
  show "decimal_value (str_nat n_ok) = n_ok" by (rule str_nat_value)
  show "is_decimal (str_nat n_failed)" by (rule str_nat_is_decimal)
  show "decimal_value (str_nat n_failed) = n_failed" by (rule str_nat_value)
  show "n_ok + n_failed = length items"
    unfolding ok bad by (rule sum_length_filter_compl)
  show "outcome r = Exit 0"
    by (simp add: r push_main_def tk ne Let_def)
next
  assume "api k v = Inl msg"
  then show "report_line api (k, v) = Fail_line k (take 50 msg)"
    by (simp add: report_line_def)
next
  show "summary_line 2 1 = newline # ''Done! Uploaded 2 secrets, 1 failed.''"
    by (rule summary_two_one)
qed

theorem failures_counted_batch_continues_witness:
  "calls (push_main (Some [''JWT_SECRET=c'', ''GROQ_API_KEY_2=b'', ''GROQ_API_KEY_1=a''])
            (Some ''hf_tok'') None flaky)
     = map (mk_call ''hf_tok'')
         [(''GROQ_API_KEY_1'', ''a''), (''GROQ_API_KEY_2'', ''b''), (''JWT_SECRET'', ''c'')]
   \<and> (\<exists>before. console (push_main (Some [''JWT_SECRET=c'', ''GROQ_API_KEY_2=b'', ''GROQ_API_KEY_1=a''])
            (Some ''hf_tok'') None flaky)
        = before @ [Ok_line ''GROQ_API_KEY_1'' ''a...'',
                    Fail_line ''GROQ_API_KEY_2'' ''503 Server Error'',
                    Ok_line ''JWT_SECRET'' ''c...'',
                    Line (replicate 50 CHR ''=''),
                    Line (newline # ''Done! Uploaded 2 secrets, 1 failed.'')]
            @ [Restart_warning,
                Line ''Go to: https://huggingface.co/spaces/sharry121/baatcheet/settings'',
                Line (''Click 'Restart this Space' or 'Factory reboot'' @ [squote])])"
proof -
  let ?f = "[''JWT_SECRET=c'', ''GROQ_API_KEY_2=b'', ''GROQ_API_KEY_1=a'']"
  let ?items = "[(''GROQ_API_KEY_1'', ''a''), (''GROQ_API_KEY_2'', ''b''), (''JWT_SECRET'', ''c'')]"
  have tk: "get_token (Some ''hf_tok'') None = ([], Inr ''hf_tok'')"
    by (simp add: get_token_def)
  have ne: "''hf_tok'' \<noteq> []" by simp
  have it: "?items = sort (filtered_secrets_push ?f)" by (simp add: three_items)
  have ok: "2 = length (filter (succeeds flaky) ?items)"
    by (simp add: succeeds_def flaky_def)
  have bad: "1 = length (filter (\<lambda>kv. \<not> succeeds flaky kv) ?items)"
    by (simp add: succeeds_def flaky_def)
  have rep: "map (report_line flaky) ?items =
      [Ok_line ''GROQ_API_KEY_1'' ''a...'', Fail_line ''GROQ_API_KEY_2'' ''503 Server Error'',
       Ok_line ''JWT_SECRET'' ''c...'']"
    by (simp add: report_line_def flaky_def masked_push_def py_slice_def clamp_index_def)
  have sm: "newline # ''Done! Uploaded '' @ str_nat 2 @ '' secrets, '' @ str_nat 1 @ '' failed.''
      = newline # ''Done! Uploaded 2 secrets, 1 failed.''"
    using summary_two_one by (simp only: summary_line_def)
  note main = failures_counted_batch_continues
    [OF tk ne it refl ok bad, of "''GROQ_API_KEY_2''" "''b''" "''503 Server Error''"]
  from main have a: "calls (push_main (Some ?f) (Some ''hf_tok'') None flaky)
      = map (mk_call ''hf_tok'') ?items"
    by (rule conjunct1)
  from main have b: "\<exists>before. console (push_main (Some ?f) (Some ''hf_tok'') None flaky)
      = before @ map (report_line flaky) ?items
          @ [Line (replicate 50 CHR ''=''),
             Line (newline # ''Done! Uploaded '' @ str_nat 2 @ '' secrets, '' @ str_nat 1
                     @ '' failed.'')]
          @ (if (2::nat) > 0
             then [Restart_warning,
                  Line ''Go to: https://huggingface.co/spaces/sharry121/baatcheet/settings'',
                  Line (''Click 'Restart this Space' or 'Factory reboot'' @ [squote])]
             else [])"
    by (elim conjE)
  from a b show ?thesis
    unfolding rep sm by simp
qed

text \<open>
  C9. The keys of \<open>secrets\<close> are distinct. If a line stores the key \<open>k\<close> with the value
  \<open>v\<close> and no later line stores \<open>k\<close>, then \<open>secrets\<close> maps \<open>k\<close> to \<open>v\<close>: the last
  occurrence wins. A key that no line stores is absent.
\<close>

theorem secrets_last_wins:
  "distinct (map fst (secrets f))
   \<and> (f = pre @ l # post \<longrightarrow> parse_line l = Some (k, v) \<longrightarrow>
        (\<forall>l'\<in>set post. \<forall>v'. parse_line l' \<noteq> Some (k, v')) \<longrightarrow>
        map_of (secrets f) k = Some v)
   \<and> ((\<forall>l'\<in>set f. \<forall>v'. parse_line l' \<noteq> Some (k, v')) \<longrightarrow> map_of (secrets f) k = None)"
proof (intro conjI impI)
  show "distinct (map fst (secrets f))" by (rule distinct_secrets)
next
  assume f: "f = pre @ l # post" and hit: "parse_line l = Some (k, v)"
    and miss: "\<forall>l'\<in>set post. \<forall>v'. parse_line l' \<noteq> Some (k, v')"
  have "secrets f = foldl parse_step (parse_step (foldl parse_step [] pre) l) post"
    by (simp add: secrets_def f)
  then show "map_of (secrets f) k = Some v"
    by (simp add: map_of_foldl_parse_miss [OF miss] map_of_parse_step_hit [OF hit])
next
  assume "\<forall>l'\<in>set f. \<forall>v'. parse_line l' \<noteq> Some (k, v')"
  then show "map_of (secrets f) k = None"
    by (simp add: secrets_def map_of_foldl_parse_miss)
qed

theorem secrets_last_wins_witness:
  "map_of (secrets [''JWT_SECRET=first'', ''JWT_SECRET=second'', ''NODE_ENV=production''])
     ''JWT_SECRET'' = Some ''second''
   \<and> map_of (secrets [''JWT_SECRET=first'', ''JWT_SECRET=second'', ''NODE_ENV=production''])
     ''MAX_TOKENS'' = None"
  using secrets_last_wins
      [of "[''JWT_SECRET=first'', ''JWT_SECRET=second'', ''NODE_ENV=production'']"
        "[''JWT_SECRET=first'']" "''JWT_SECRET=second''" "[''NODE_ENV=production'']"
        "''JWT_SECRET''" "''second''"]
    secrets_last_wins
      [of "[''JWT_SECRET=first'', ''JWT_SECRET=second'', ''NODE_ENV=production'']"
        "[]" "''JWT_SECRET=first''" "[''JWT_SECRET=second'', ''NODE_ENV=production'']"
        "''MAX_TOKENS''" "''first''"]
  by (simp add: parse_first parse_second parse_node_env)

text \<open>
  C10 (amended). Take a line that, once trimmed as a whole, is a key part, the first sign
  \<open>=\<close> and a value part, with whitespace at the end of the key part and at the start of
  the value part. Only the whole line is trimmed: the key is the key part with its
  whitespace, and the value keeps its leading whitespace, so it is never empty and never a
  placeholder, and the line is stored unless it is a comment. Such a key is never one of
  the important keys of either script, but it starts with an API prefix exactly when the
  key part does. So in both scripts the line is retained if and only if its key starts
  with one of the API prefixes, both in the file made of this line alone and, for an entry
  with such a key, in every file.
\<close>

theorem spaced_line_retained_iff_prefix:
  "py_strip raw_line = key @ CHR ''='' # rest \<Longrightarrow> CHR ''='' \<notin> set key \<Longrightarrow>
   key \<noteq> [] \<Longrightarrow> py_isspace (last key) \<Longrightarrow> rest \<noteq> [] \<Longrightarrow> py_isspace (hd rest) \<Longrightarrow>
   split_eq (py_strip raw_line) = (key, rest)
   \<and> strip_quotes rest \<noteq> [] \<and> hd (strip_quotes rest) = hd rest
   \<and> parse_line raw_line
       = (if startswith key ''#'' then None else Some (key, strip_quotes rest))
   \<and> key \<notin> set important_keys_push \<and> key \<notin> set important_keys_upload
   \<and> filtered_secrets_push [raw_line]
       = (if \<exists>p\<in>set api_prefixes. startswith key p then [(key, strip_quotes rest)] else [])
   \<and> filtered_secrets_upload [raw_line]
       = (if \<exists>p\<in>set api_prefixes. startswith key p then [(key, strip_quotes rest)] else [])
   \<and> ((key, v) \<in> set (filtered_secrets_push f) \<longleftrightarrow>
        (key, v) \<in> set (secrets f) \<and> (\<exists>p\<in>set api_prefixes. startswith key p))
   \<and> ((key, v) \<in> set (filtered_secrets_upload f) \<longleftrightarrow>
        (key, v) \<in> set (secrets f) \<and> (\<exists>p\<in>set api_prefixes. startswith key p))"
proof -
  assume line: "py_strip raw_line = key @ CHR ''='' # rest" and eq: "CHR ''='' \<notin> set key"
    and key: "key \<noteq> []" "py_isspace (last key)"
    and rest: "rest \<noteq> []" "py_isspace (hd rest)"
  note pl = spaced_parse_line [OF line eq rest key(1)]
  from spaced_key_not_important [OF key]
  have ik: "key \<notin> set important_keys_push" "key \<notin> set important_keys_upload" by simp_all
  have al: "allow_listed important_keys_push key = (\<exists>p\<in>set api_prefixes. startswith key p)"
    "allow_listed important_keys_upload key = (\<exists>p\<in>set api_prefixes. startswith key p)"
    by (simp_all add: allow_listed_def ik)
  have sec: "secrets [raw_line]
      = (if startswith key ''#'' then [] else [(key, strip_quotes rest)])"
    by (simp add: secrets_def parse_step_def pl)
  have fp: "filtered_secrets_push [raw_line]
       = (if \<exists>p\<in>set api_prefixes. startswith key p then [(key, strip_quotes rest)] else [])"
    using api_prefix_not_comment [of key]
    by (auto simp: filtered_secrets_push_def sec filtered_secrets_eq al)
  have fu: "filtered_secrets_upload [raw_line]
       = (if \<exists>p\<in>set api_prefixes. startswith key p then [(key, strip_quotes rest)] else [])"
    using api_prefix_not_comment [of key]
    by (auto simp: filtered_secrets_upload_def sec filtered_secrets_eq al)
  have mp: "(key, v) \<in> set (filtered_secrets_push f) \<longleftrightarrow>
        (key, v) \<in> set (secrets f) \<and> (\<exists>p\<in>set api_prefixes. startswith key p)"
    by (simp add: filtered_secrets_push_def filtered_secrets_eq [OF distinct_secrets] al)
  have mu: "(key, v) \<in> set (filtered_secrets_upload f) \<longleftrightarrow>
        (key, v) \<in> set (secrets f) \<and> (\<exists>p\<in>set api_prefixes. startswith key p)"
    by (simp add: filtered_secrets_upload_def filtered_secrets_eq [OF distinct_secrets] al)
  from spaced_value_stored [OF rest]
  have sv: "strip_quotes rest \<noteq> []" "hd (strip_quotes rest) = hd rest" by simp_all
  have sp: "split_eq (py_strip raw_line) = (key, rest)"
    by (simp only: line split_eq_append [OF eq])
  from sp sv pl ik fp fu mp mu show ?thesis by (intro conjI)
qed

theorem spaced_line_retained_iff_prefix_witness:
  "filtered_secrets_push [''GROQ_API_KEY = abc''] = [(''GROQ_API_KEY '', '' abc'')]
   \<and> filtered_secrets_upload [''MY_SETTING = abc''] = []"
  using
    spaced_line_retained_iff_prefix [OF strip_spaced, of "'' abc''" "[''GROQ_API_KEY = abc'']"]
    spaced_line_retained_iff_prefix
      [OF strip_spaced_other, of "'' abc''" "[''MY_SETTING = abc'']"]
  by (simp add: space_is_space spaced_value api_prefixes_def startswith_def)

text \<open>
  The claim as stated fails: the key \<open>GROQ_API_KEY\<close> followed by a space starts with the
  API prefix \<open>GROQ_API_KEY\<close>, and both scripts retain the line \<open>GROQ_API_KEY = abc\<close>.
\<close>

theorem spaced_api_key_retained:
  "parse_line ''GROQ_API_KEY = abc'' = Some (''GROQ_API_KEY '', '' abc'')
   \<and> startswith ''GROQ_API_KEY '' ''GROQ_API_KEY''
   \<and> filtered_secrets_push [''GROQ_API_KEY = abc''] = [(''GROQ_API_KEY '', '' abc'')]
   \<and> filtered_secrets_upload [''GROQ_API_KEY = abc''] = [(''GROQ_API_KEY '', '' abc'')]"
  by code_simp

end
